theory Spec2Isabelle
  imports Main "HOL-Library.Sublist"
begin

section \<open>Go library functions the package relies on\<close>

text \<open>
  Go strings are byte sequences; they are modelled as \<open>string\<close> (a list of 8-bit
  characters). The carriage return and the line feed are the bytes 13 and 10.
\<close>

abbreviation CR :: char where "CR \<equiv> CHR 0x0D"
abbreviation LF :: char where "LF \<equiv> CHR 0x0A"
abbreviation CRLF :: string where "CRLF \<equiv> [CR, LF]"

definition HasSuffix :: "string \<Rightarrow> string \<Rightarrow> bool" where
  "HasSuffix s suf = suffix suf s"

definition TrimSuffix :: "string \<Rightarrow> string \<Rightarrow> string" where
  "TrimSuffix s suf = (if suffix suf s then take (length s - length suf) s else s)"

definition HasPrefix :: "string \<Rightarrow> string \<Rightarrow> bool" where
  "HasPrefix s pre = prefix pre s"

definition isDigit :: "char \<Rightarrow> bool" where
  "isDigit c = (48 \<le> (of_char c :: nat) \<and> (of_char c :: nat) \<le> 57)"

definition digitsValue :: "string \<Rightarrow> int" where
  "digitsValue ds = foldl (\<lambda>n c. n * 10 + (int (of_char c) - 48)) 0 ds"

text \<open>
  \<open>strconv.Atoi\<close>: an optional sign, then at least one decimal digit and nothing else;
  a value outside the range of a 64-bit \<open>int\<close> is an error as well. \<open>None\<close> stands for
  the non-nil error.
\<close>

definition Atoi :: "string \<Rightarrow> int option" where
  "Atoi s =
     (let neg = (s \<noteq> [] \<and> hd s = CHR ''-'');
          signed = (s \<noteq> [] \<and> (hd s = CHR ''-'' \<or> hd s = CHR ''+''));
          ds = (if signed then tl s else s)
      in if ds = [] \<or> \<not> list_all isDigit ds then None
         else let n = digitsValue ds; v = (if neg then - n else n)
              in if v < - (2 ^ 63) \<or> 2 ^ 63 - 1 < v then None else Some v)"

text \<open>
  \<open>strings.SplitN(s, sep, 2)\<close> for a one-byte separator: the text before the first
  separator and the text after it, or \<open>s\<close> alone when there is no separator.
\<close>

definition SplitN2 :: "string \<Rightarrow> char \<Rightarrow> string list" where
  "SplitN2 s sep =
     (if sep \<in> set s
      then [takeWhile (\<lambda>c. c \<noteq> sep) s, tl (dropWhile (\<lambda>c. c \<noteq> sep) s)]
      else [s])"

text \<open>
  \<open>bufio.Reader.ReadString('\n')\<close> on a finite stream: the bytes up to and including the
  first line feed, and the rest of the stream; \<open>None\<close> when the stream ends before a line
  feed is found (the call then reports \<open>io.EOF\<close>). The end of the stream is the only
  read error of the model.
\<close>

definition ReadString :: "string \<Rightarrow> (string \<times> string) option" where
  "ReadString s =
     (if LF \<in> set s
      then Some (takeWhile (\<lambda>c. c \<noteq> LF) s @ [LF], tl (dropWhile (\<lambda>c. c \<noteq> LF) s))
      else None)"

section \<open>Response buffers\<close>

text \<open>
  \<open>MidReplyLine\<close> and \<open>EndReplyLine\<close> are strings, a \<open>DataReplyLine\<close> is a slice of
  strings whose first element is the line that opened the block.
\<close>

type_synonym MidReplyLine = string
type_synonym DataReplyLine = "string list"
type_synonym EndReplyLine = string
type_synonym LineBuffer = "string list"

record ResponseBuffer =
  MidReplyLines :: "MidReplyLine list"
  DataReplyLines :: "DataReplyLine list"
  EndReplyLine :: EndReplyLine

section \<open>The parser (parser.go)\<close>

text \<open>
  The parser state. The reader is the byte stream handed to \<open>Run\<close>; the channel \<open>ch\<close>
  is the sequence of buffers posted so far, oldest first.
\<close>

record Parser =
  ch :: "ResponseBuffer list"
  buffer :: ResponseBuffer
  dataReplyLine :: DataReplyLine
  bufferRaw :: "string list"
  isReady :: bool
  isMultiLine :: bool

definition emptyBuffer :: ResponseBuffer where
  "emptyBuffer = \<lparr>MidReplyLines = [], DataReplyLines = [], EndReplyLine = []\<rparr>"

definition Reset :: "Parser \<Rightarrow> Parser" where
  "Reset p = p\<lparr>buffer := emptyBuffer, bufferRaw := [], isReady := True, isMultiLine := False\<rparr>"

definition NewParser :: Parser where
  "NewParser =
     Reset \<lparr>ch = [], buffer = emptyBuffer, dataReplyLine = [], bufferRaw = [],
            isReady = False, isMultiLine = False\<rparr>"

definition post :: "Parser \<Rightarrow> Parser" where
  "post p = Reset (p\<lparr>ch := ch p @ [buffer p]\<rparr>)"

definition isReplyLine :: "string \<Rightarrow> bool" where
  "isReplyLine ln = (if length ln < 5 then False
                     else if Atoi (take 3 ln) = None then False
                     else True)"

definition isEndReplyLine :: "string \<Rightarrow> bool" where
  "isEndReplyLine ln = (if \<not> isReplyLine ln \<or> ln ! 3 \<noteq> CHR '' '' then False else True)"

definition isMidReplyLine :: "string \<Rightarrow> bool" where
  "isMidReplyLine ln = (if \<not> isReplyLine ln \<or> ln ! 3 \<noteq> CHR ''-'' then False else True)"

definition isDataReplyLine :: "string \<Rightarrow> bool" where
  "isDataReplyLine ln = (if \<not> isReplyLine ln \<or> ln ! 3 \<noteq> CHR ''+'' then False else True)"

definition isEndOfData :: "string \<Rightarrow> bool" where
  "isEndOfData ln = (if length ln \<noteq> 1 \<or> ln ! 0 \<noteq> CHR ''.'' then False else True)"

text \<open>
  One iteration of the loop of \<open>Parser.Run\<close>, on a chunk \<open>raw\<close> that \<open>ReadString\<close>
  returned without an error.
\<close>

definition Run_step :: "Parser \<Rightarrow> string \<Rightarrow> Parser" where
  "Run_step p raw =
     (if \<not> HasSuffix raw CRLF then p
      else
        let ln = TrimSuffix raw CRLF;
            p1 = p\<lparr>bufferRaw := bufferRaw p @ [ln]\<rparr>
        in if isReady p1 then
             (if isEndReplyLine ln then
                post (p1\<lparr>buffer := (buffer p1)\<lparr>EndReplyLine := ln\<rparr>\<rparr>)
              else if isMidReplyLine ln then
                p1\<lparr>buffer := (buffer p1)\<lparr>MidReplyLines := MidReplyLines (buffer p1) @ [ln]\<rparr>\<rparr>
              else if isDataReplyLine ln then
                p1\<lparr>dataReplyLine := [ln], isReady := False, isMultiLine := True\<rparr>
              else Reset p1)
           else if isMultiLine p1 then
             (if \<not> isEndOfData ln then
                p1\<lparr>dataReplyLine := dataReplyLine p1 @ [ln]\<rparr>
              else
                p1\<lparr>buffer := (buffer p1)\<lparr>DataReplyLines :=
                                   DataReplyLines (buffer p1) @ [dataReplyLine p1]\<rparr>,
                   isReady := True, isMultiLine := False\<rparr>)
           else p1)"

text \<open>
  \<open>Parser.Run\<close>: read chunk after chunk until the stream ends. A stream that ends
  inside a line makes \<open>ReadString\<close> report \<open>io.EOF\<close>, and the loop is left without
  looking at the unfinished line.
\<close>

function Run :: "Parser \<Rightarrow> string \<Rightarrow> Parser" where
  "Run p s = (case ReadString s of
                None \<Rightarrow> p
              | Some (ln, rest) \<Rightarrow> Run (Run_step p ln) rest)"
  by pat_completeness auto
termination
proof (relation "measure (\<lambda>(p, s). length s)")
  show "wf (measure (\<lambda>(p, s). length s))" by simp
next
  fix p :: Parser and s x2 ln rest
  assume a: "ReadString s = Some x2" and b: "(ln, rest) = x2"
  from a b have m: "LF \<in> set s" and r: "rest = tl (dropWhile (\<lambda>c. c \<noteq> LF) s)"
    by (auto simp: ReadString_def split: if_splits)
  from m have "dropWhile (\<lambda>c. c \<noteq> LF) s \<noteq> []" by simp
  then have "length (tl (dropWhile (\<lambda>c. c \<noteq> LF) s)) < length (dropWhile (\<lambda>c. c \<noteq> LF) s)"
    by (cases "dropWhile (\<lambda>c. c \<noteq> LF) s") auto
  also have "\<dots> \<le> length s" by (rule length_dropWhile_le)
  finally show "((Run_step p ln, rest), (p, s)) \<in> measure (\<lambda>(p, s). length s)"
    using r by simp
qed

declare Run.simps [simp del]

text \<open>The bytes a peer sends for a sequence of lines: every line followed by CR LF.\<close>

definition wire :: "string list \<Rightarrow> string" where
  "wire ls = concat (map (\<lambda>l. l @ CRLF) ls)"

section \<open>Requests and responses (message.go)\<close>

text \<open>A duration is a number of nanoseconds (a 64-bit integer in Go).\<close>

record BaseControlRequest =
  req_buffer :: LineBuffer
  req_timeout :: int

definition NewRequest :: "string \<Rightarrow> BaseControlRequest" where
  "NewRequest data = \<lparr>req_buffer = [] @ [data], req_timeout = 1000000000 * 5\<rparr>"

definition ResponseTimeout :: "BaseControlRequest \<Rightarrow> int" where
  "ResponseTimeout m = req_timeout m"

definition Serialize :: "BaseControlRequest \<Rightarrow> LineBuffer" where
  "Serialize m = req_buffer m"

record BaseControlResponse =
  Request :: BaseControlRequest
  Buffer :: ResponseBuffer

definition NewResponse :: "BaseControlRequest \<Rightarrow> ResponseBuffer \<Rightarrow> BaseControlResponse" where
  "NewResponse req data = \<lparr>Request = req, Buffer = data\<rparr>"

definition status_parts :: "EndReplyLine \<Rightarrow> string list" where
  "status_parts l = SplitN2 l (CHR '' '')"

definition EndReplyLine_Status :: "EndReplyLine \<Rightarrow> int" where
  "EndReplyLine_Status l = (case Atoi (status_parts l ! 0) of None \<Rightarrow> - 1 | Some i \<Rightarrow> i)"

definition Status :: "BaseControlResponse \<Rightarrow> int" where
  "Status r = EndReplyLine_Status (EndReplyLine (Buffer r))"

definition IsSuccess :: "BaseControlResponse \<Rightarrow> bool" where
  "IsSuccess r = (let status = Status r
                  in if status > 299 \<and> status < 600 then False else True)"

section \<open>Line buffers\<close>

text \<open>
  \<open>strings.Replace(s, old, new, -1)\<close> for a non-empty \<open>old\<close>: the matches are taken from
  left to right and do not overlap. Both calls in the package pass a non-empty \<open>old\<close>;
  what Go does for an empty one is not modelled.
\<close>

function Replace :: "string \<Rightarrow> string \<Rightarrow> string \<Rightarrow> string" where
  "Replace s old new =
     (if s = [] \<or> old = [] then s
      else if prefix old s then new @ Replace (drop (length old) s) old new
      else hd s # Replace (tl s) old new)"
  by pat_completeness auto
termination
  by (relation "measure (\<lambda>(s, old, new). length s)") auto

declare Replace.simps [simp del]

definition Normalize :: "LineBuffer \<Rightarrow> string" where
  "Normalize b =
     foldl (\<lambda>results v0.
              let v1 = Replace v0 CRLF [LF];
                  v2 = Replace v1 [LF] CRLF;
                  v3 = (if \<not> HasSuffix v2 CRLF then v2 @ CRLF else v2)
              in results @ v3) [] b"

section \<open>Reading the PROTOCOLINFO reply\<close>

text \<open>
  Indexing a slice out of range and slicing a string beyond its end are run-time panics;
  a function that can panic returns an \<open>option\<close>, with \<open>None\<close> for the panic.
\<close>

definition MidReplyLine_Text :: "MidReplyLine \<Rightarrow> string option" where
  "MidReplyLine_Text l =
     (let parts = SplitN2 l (CHR ''-'')
      in if length parts < 2 then None else Some (parts ! 1))"

fun find_prefix_mrl :: "MidReplyLine list \<Rightarrow> string \<Rightarrow> string option" where
  "find_prefix_mrl [] pre = Some []"
| "find_prefix_mrl (v # data) pre =
     (case MidReplyLine_Text v of
        None \<Rightarrow> None
      | Some t \<Rightarrow> if HasPrefix t pre then Some t else find_prefix_mrl data pre)"

text \<open>\<open>strings.SplitN(s, sep, -1)\<close> for a one-byte separator: every piece.\<close>

fun Split :: "string \<Rightarrow> char \<Rightarrow> string list" where
  "Split [] sep = [[]]"
| "Split (c # s) sep =
     (if c = sep then [] # Split s sep
      else (case Split s sep of [] \<Rightarrow> [[c]] | x # xs \<Rightarrow> (c # x) # xs))"

section \<open>The world outside the controller\<close>

datatype error = Errorf string | External string

type_synonym Conn = nat

text \<open>
  What the controller meets when it acts: the outcome of the dialer, of a write on the
  connection, the buffer (if any) that the parser delivers on the channel before the
  request's timer fires, the content of a file, and the key/value scan that
  \<open>__make_variable_map\<close> does with a regular expression.
\<close>

record Env =
  dial :: "string \<Rightarrow> string \<Rightarrow> error + Conn"
  conn_write :: "string \<Rightarrow> error option"
  chan_receive :: "string \<Rightarrow> ResponseBuffer option"
  readFile :: "string \<Rightarrow> error + string"
  make_variable_map :: "string \<Rightarrow> string \<Rightarrow> string option"

definition lookup :: "(string \<Rightarrow> string option) \<Rightarrow> string \<Rightarrow> string" where
  "lookup m k = (case m k of None \<Rightarrow> [] | Some v \<Rightarrow> v)"

definition Auth :: "Env \<Rightarrow> BaseControlResponse \<Rightarrow> (string \<Rightarrow> string option) option" where
  "Auth env m =
     (case find_prefix_mrl (MidReplyLines (Buffer m)) ''AUTH'' of
        None \<Rightarrow> None
      | Some text \<Rightarrow>
          if length text < length ''AUTH'' then None
          else Some (make_variable_map env (drop (length ''AUTH'') text)))"

definition AuthMethods :: "Env \<Rightarrow> BaseControlResponse \<Rightarrow> string list option" where
  "AuthMethods env m =
     (case Auth env m of None \<Rightarrow> None
      | Some a \<Rightarrow> Some (Split (lookup a ''METHODS'') (CHR '','')))"

definition AuthCookieFile :: "Env \<Rightarrow> BaseControlResponse \<Rightarrow> string option" where
  "AuthCookieFile env m =
     (case Auth env m of None \<Rightarrow> None | Some a \<Rightarrow> Some (lookup a ''COOKIEFILE''))"

section \<open>The controller\<close>

text \<open>
  \<open>Authenticator\<close> is an interface; the package implements it four times.
\<close>

datatype Authenticator =
  OpenAuthenticator | CookieAuthenticator | PasswordAuthenticator | SafeCookieAuthenticator

fun MethodName :: "Authenticator \<Rightarrow> string" where
  "MethodName OpenAuthenticator = ''NULL''"
| "MethodName CookieAuthenticator = ''COOKIE''"
| "MethodName PasswordAuthenticator = ''HASHEDPASSWORD''"
| "MethodName SafeCookieAuthenticator = ''SAFECOOKIE''"

text \<open>The channel \<open>in\<close> of a controller is nil, open, or closed.\<close>

datatype Chan = ChanNil | ChanOpen | ChanClosed

text \<open>What a controller does to the outside world, in the order it does it.\<close>

datatype Effect =
  Dialed string string
  | ParserStarted Conn
  | Written Conn string
  | FileRead string
  | ConnClosed Conn
  | ChanClosedEv

text \<open>
  The controller. The \<open>Dialer\<close> field is a function of the outside world and is found
  in \<open>Env\<close>; \<open>effects\<close> records the calls made on the outside world and is not a field
  of the Go struct.
\<close>

record Controller =
  network :: string
  hostport :: string
  connection :: "Conn option"
  isConnected :: bool
  in_chan :: Chan
  parser :: "Parser option"
  Password :: string
  authenticator :: "Authenticator option"
  isAuthenticated :: bool
  effects :: "Effect list"

definition NewController :: "string \<Rightarrow> string \<Rightarrow> Controller" where
  "NewController nw hp =
     \<lparr>network = nw, hostport = hp, connection = None, isConnected = False,
      in_chan = ChanNil, parser = None, Password = [], authenticator = None,
      isAuthenticated = False, effects = []\<rparr>"

definition IsConnected :: "Controller \<Rightarrow> bool" where
  "IsConnected c = isConnected c"

definition IsAuthenticated :: "Controller \<Rightarrow> bool" where
  "IsAuthenticated c = isAuthenticated c"

text \<open>
  \<open>Close\<close>. Closing a nil channel or a closed one is a run-time panic (\<open>None\<close>).
\<close>

definition Close :: "Controller \<Rightarrow> Controller option" where
  "Close c =
     (case connection c of
        None \<Rightarrow> Some c
      | Some conn \<Rightarrow>
          if in_chan c \<noteq> ChanOpen then None
          else Some (c\<lparr>connection := None, isConnected := False, isAuthenticated := False,
                       in_chan := ChanClosed,
                       effects := effects c @ [ConnClosed conn, ChanClosedEv]\<rparr>))"

text \<open>\<open>SendMessage\<close>: dereferencing a nil connection is a run-time panic.\<close>

definition SendMessage :: "Controller \<Rightarrow> Env \<Rightarrow> LineBuffer \<Rightarrow> (Controller \<times> error option) option" where
  "SendMessage c env buf =
     (case connection c of
        None \<Rightarrow> None
      | Some conn \<Rightarrow>
          Some (c\<lparr>effects := effects c @ [Written conn (Normalize buf)]\<rparr>,
                conn_write env (Normalize buf)))"

text \<open>The zero value of \<open>ResponseBuffer\<close>: nil slices and the empty string.\<close>

definition zeroBuffer :: ResponseBuffer where
  "zeroBuffer = \<lparr>MidReplyLines = [], DataReplyLines = [], EndReplyLine = []\<rparr>"

text \<open>
  \<open>Request\<close>: after the write, the first of the next buffer on the channel and the
  request's timer wins. A closed and drained channel delivers the zero buffer at once, a
  nil channel never delivers.
\<close>

definition Controller_Request ::
  "Controller \<Rightarrow> Env \<Rightarrow> BaseControlRequest \<Rightarrow> (Controller \<times> (error + BaseControlResponse)) option" where
  "Controller_Request c env request =
     (case SendMessage c env (Serialize request) of
        None \<Rightarrow> None
      | Some (c1, Some e) \<Rightarrow> Some (c1, Inl e)
      | Some (c1, None) \<Rightarrow>
          (case (case in_chan c1 of
                   ChanNil \<Rightarrow> None
                 | ChanClosed \<Rightarrow> Some zeroBuffer
                 | ChanOpen \<Rightarrow> chan_receive env (Normalize (Serialize request))) of
             Some buff \<Rightarrow> Some (c1, Inr (NewResponse request buff))
           | None \<Rightarrow> Some (c1, Inl (Errorf ''Timeout waiting for reply.''))))"

definition ProtocolInfo ::
  "Controller \<Rightarrow> Env \<Rightarrow> (Controller \<times> (error + BaseControlResponse)) option" where
  "ProtocolInfo c env = Controller_Request c env (NewRequest ''PROTOCOLINFO'')"

section \<open>The authenticators\<close>

text \<open>\<open>fmt.Sprintf("%x", bytes)\<close>: two lower-case hexadecimal digits for every byte.\<close>

definition hexDigit :: "nat \<Rightarrow> char" where
  "hexDigit n = ''0123456789abcdef'' ! n"

definition hex :: "string \<Rightarrow> string" where
  "hex bs = concat (map (\<lambda>b. [hexDigit (of_char b div 16), hexDigit (of_char b mod 16)]) bs)"

definition Open_Authenticate ::
  "Controller \<Rightarrow> Env \<Rightarrow> BaseControlResponse \<Rightarrow> (Controller \<times> error option) option" where
  "Open_Authenticate c env protoinfo =
     (case Controller_Request c env (NewRequest ''AUTHENTICATE'') of
        None \<Rightarrow> None
      | Some (c1, Inl e) \<Rightarrow> Some (c1, Some e)
      | Some (c1, Inr response) \<Rightarrow>
          let c2 = c1\<lparr>isAuthenticated := IsSuccess response\<rparr>
          in if \<not> IsAuthenticated c2 then Some (c2, Some (Errorf ''Authentication failed!''))
             else Some (c2, None))"

definition Cookie_Authenticate ::
  "Controller \<Rightarrow> Env \<Rightarrow> BaseControlResponse \<Rightarrow> (Controller \<times> error option) option" where
  "Cookie_Authenticate c env protoinfo =
     (case AuthCookieFile env protoinfo of
        None \<Rightarrow> None
      | Some path \<Rightarrow>
          let c0 = c\<lparr>effects := effects c @ [FileRead path]\<rparr>
          in case readFile env path of
               Inl e \<Rightarrow> Some (c0, Some e)
             | Inr cookie \<Rightarrow>
                 (case Controller_Request c0 env (NewRequest (''AUTHENTICATE '' @ hex cookie)) of
                    None \<Rightarrow> None
                  | Some (c1, Inl e) \<Rightarrow> Some (c1, Some e)
                  | Some (c1, Inr response) \<Rightarrow>
                      if \<not> IsSuccess response then Some (c1, None)
                      else
                        let c2 = c1\<lparr>isAuthenticated := IsSuccess response\<rparr>
                        in if \<not> IsAuthenticated c2
                           then Some (c2, Some (Errorf ''Authentication failed!''))
                           else Some (c2, None)))"

definition Password_Authenticate ::
  "Controller \<Rightarrow> Env \<Rightarrow> BaseControlResponse \<Rightarrow> (Controller \<times> error option) option" where
  "Password_Authenticate c env protoinfo =
     (case Controller_Request c env
             (NewRequest (''AUTHENTICATE '' @ [CHR 0x22] @ Password c @ [CHR 0x22])) of
        None \<Rightarrow> None
      | Some (c1, Inl e) \<Rightarrow> Some (c1, Some e)
      | Some (c1, Inr response) \<Rightarrow>
          if \<not> IsSuccess response then Some (c1, None)
          else
            let c2 = c1\<lparr>isAuthenticated := IsSuccess response\<rparr>
            in if \<not> IsAuthenticated c2
               then Some (c2, Some (Errorf ''Authentication failed!''))
               else Some (c2, None))"

definition NotImplemented :: error where
  "NotImplemented = Errorf ''Not implemented yet!''"

definition SafeCookie_Authenticate ::
  "Controller \<Rightarrow> Env \<Rightarrow> BaseControlResponse \<Rightarrow> (Controller \<times> error option) option" where
  "SafeCookie_Authenticate c env protoinfo = Some (c, Some NotImplemented)"

fun Authenticate ::
  "Authenticator \<Rightarrow> Controller \<Rightarrow> Env \<Rightarrow> BaseControlResponse \<Rightarrow> (Controller \<times> error option) option" where
  "Authenticate OpenAuthenticator c env protoinfo = Open_Authenticate c env protoinfo"
| "Authenticate CookieAuthenticator c env protoinfo = Cookie_Authenticate c env protoinfo"
| "Authenticate PasswordAuthenticator c env protoinfo = Password_Authenticate c env protoinfo"
| "Authenticate SafeCookieAuthenticator c env protoinfo = SafeCookie_Authenticate c env protoinfo"

section \<open>Connecting\<close>

definition authPrefs :: "Authenticator list" where
  "authPrefs = [CookieAuthenticator, PasswordAuthenticator, OpenAuthenticator]"

text \<open>
  The two nested loops of \<open>Connect\<close>. The inner one runs over the advertised methods and
  is left at the first method that has the name of the authenticator \<open>i\<close>; the outer one
  runs over all of \<open>authPrefs\<close>. \<open>cur\<close> is the field \<open>c.authenticator\<close>.
\<close>

fun select_inner :: "Authenticator option \<Rightarrow> Authenticator \<Rightarrow> string list \<Rightarrow> Authenticator option" where
  "select_inner cur i [] = cur"
| "select_inner cur i (v # vs) = (if MethodName i \<noteq> v then select_inner cur i vs else Some i)"

fun select_outer :: "Authenticator option \<Rightarrow> Authenticator list \<Rightarrow> string list \<Rightarrow> Authenticator option" where
  "select_outer cur [] methods = cur"
| "select_outer cur (i # prefs) methods = select_outer (select_inner cur i methods) prefs methods"

definition Connect :: "Controller \<Rightarrow> Env \<Rightarrow> (Controller \<times> error option) option" where
  "Connect c env =
     (if IsConnected c then Some (c, None)
      else
        (let c0 = c\<lparr>effects := effects c @ [Dialed (network c) (hostport c)]\<rparr>
         in (case dial env (network c) (hostport c) of
               Inl e \<Rightarrow> Some (c0, Some e)
             | Inr conn \<Rightarrow>
                 (let c1 = c0\<lparr>connection := Some conn, isConnected := True,
                              in_chan := ChanOpen, parser := Some NewParser,
                              effects := effects c0 @ [ParserStarted conn]\<rparr>
                  in (case ProtocolInfo c1 env of
                        None \<Rightarrow> None
                      | Some (c2, Inl e) \<Rightarrow> Some (c2, Some e)
                      | Some (c2, Inr protoinfo) \<Rightarrow>
                          (case AuthMethods env protoinfo of
                             None \<Rightarrow> None
                           | Some methods \<Rightarrow>
                               (let c3 = c2\<lparr>authenticator :=
                                             select_outer (authenticator c2) authPrefs methods\<rparr>
                                in (case authenticator c3 of
                                      None \<Rightarrow>
                                        Some (c3, Some (Errorf
                                          ''Failed to find compatible authentication method.''))
                                    | Some a \<Rightarrow>
                                        (case Authenticate a c3 env protoinfo of
                                           None \<Rightarrow> None
                                         | Some (c4, Some e) \<Rightarrow>
                                             Some (c4, Some (Errorf ''Authentication failed!''))
                                         | Some (c4, None) \<Rightarrow> Some (c4, None))))))))))"

section \<open>Predicates of the statements\<close>

text \<open>
  A line has no bare newline when every line feed in it follows a carriage return. A
  line buffer is CR LF terminated when each of its lines ends with CR LF and has no bare
  newline.
\<close>

fun noBareNewline :: "string \<Rightarrow> bool" where
  "noBareNewline [] = True"
| "noBareNewline [a] = (a \<noteq> LF)"
| "noBareNewline (a # b # s) =
     (if a = CR \<and> b = LF then noBareNewline s else a \<noteq> LF \<and> noBareNewline (b # s))"

definition crlfTerminated :: "LineBuffer \<Rightarrow> bool" where
  "crlfTerminated b = list_all (\<lambda>v. HasSuffix v CRLF \<and> noBareNewline v) b"

text \<open>
  A controller is consistent when its flags agree with its connection: an authenticated
  controller is connected, a controller is connected exactly when it holds a connection,
  and a controller that holds a connection has an open channel. A new controller is
  consistent, and \<open>Connect\<close> and \<open>Close\<close> keep a controller consistent.
\<close>

definition consistent :: "Controller \<Rightarrow> bool" where
  "consistent c =
     ((isAuthenticated c \<longrightarrow> isConnected c)
      \<and> (isConnected c \<longleftrightarrow> connection c \<noteq> None)
      \<and> (connection c \<noteq> None \<longrightarrow> in_chan c = ChanOpen))"

section \<open>Example peers and controllers\<close>

text \<open>
  A peer that accepts the connection and every write. It answers \<open>PROTOCOLINFO\<close> with
  the given list of authentication methods and every other request with the given
  end-reply line. The key/value scan finds the \<open>METHODS\<close> entry of the \<open>AUTH\<close> line.
\<close>

definition peer :: "string \<Rightarrow> EndReplyLine \<Rightarrow> Env" where
  "peer auth_line auth_reply =
     \<lparr>dial = (\<lambda>nw hp. Inr 1),
      conn_write = (\<lambda>bytes. None),
      chan_receive = (\<lambda>bytes.
         if bytes = ''PROTOCOLINFO'' @ CRLF
         then Some \<lparr>MidReplyLines = [''250-PROTOCOLINFO 1'', ''250-AUTH METHODS='' @ auth_line,
                                      ''250-VERSION Tor=0.2.7.6''],
                     DataReplyLines = [], EndReplyLine = ''250 OK''\<rparr>
         else Some \<lparr>MidReplyLines = [], DataReplyLines = [], EndReplyLine = auth_reply\<rparr>),
      readFile = (\<lambda>path. Inl (External ''no such file or directory'')),
      make_variable_map = (\<lambda>text k.
         if text = '' METHODS='' @ auth_line \<and> k = ''METHODS'' then Some auth_line else None)\<rparr>"


text \<open>A controller with an open connection, as \<open>Connect\<close> leaves it after dialing.\<close>

definition connected_controller :: Controller where
  "connected_controller =
     (NewController ''tcp'' ''127.0.0.1:9051'')
       \<lparr>connection := Some 1, isConnected := True, in_chan := ChanOpen,
        parser := Some NewParser\<rparr>"

definition bad_password_reply :: EndReplyLine where
  "bad_password_reply = ''515 Authentication failed: Password did not match''"

section \<open>Properties of the parser\<close>

subsection \<open>Reading lines\<close>

lemma HasSuffix_CRLF [simp]: "HasSuffix (l @ CRLF) CRLF"
  by (simp add: HasSuffix_def suffix_def)

lemma TrimSuffix_CRLF [simp]: "TrimSuffix (l @ CRLF) CRLF = l"
  by (simp add: TrimSuffix_def suffix_def)

lemma ReadString_line:
  "LF \<notin> set l \<Longrightarrow> ReadString (l @ CRLF @ rest) = Some (l @ CRLF, rest)"
  by (simp add: ReadString_def takeWhile_append dropWhile_append)

lemma ReadString_no_LF: "LF \<notin> set s \<Longrightarrow> ReadString s = None"
  by (simp add: ReadString_def)

lemma Run_no_LF: "LF \<notin> set s \<Longrightarrow> Run p s = p"
  by (simp add: Run.simps ReadString_no_LF)

lemma Run_line:
  "LF \<notin> set l \<Longrightarrow> Run p (l @ CRLF @ rest) = Run (Run_step p (l @ CRLF)) rest"
  using ReadString_line [of l rest] by (subst Run.simps) simp

lemma wire_Nil [simp]: "wire [] = []"
  by (simp add: wire_def)

lemma wire_Cons [simp]: "wire (l # ls) = l @ CRLF @ wire ls"
  by (simp add: wire_def)

lemma wire_append: "wire (xs @ ys) = wire xs @ wire ys"
  by (simp add: wire_def)

lemma mid_not_end: "isMidReplyLine l \<Longrightarrow> \<not> isEndReplyLine l"
  by (auto simp: isMidReplyLine_def isEndReplyLine_def split: if_splits)

lemma data_not_end: "isDataReplyLine l \<Longrightarrow> \<not> isEndReplyLine l"
  by (auto simp: isDataReplyLine_def isEndReplyLine_def split: if_splits)

lemma data_not_mid: "isDataReplyLine l \<Longrightarrow> \<not> isMidReplyLine l"
  by (auto simp: isDataReplyLine_def isMidReplyLine_def split: if_splits)

lemma isEndOfData_iff: "isEndOfData l \<longleftrightarrow> l = ''.''"
  by (cases l; cases "tl l") (auto simp: isEndOfData_def)

lemma Run_step_mid:
  "isReady p \<Longrightarrow> isMidReplyLine l \<Longrightarrow>
   Run_step p (l @ CRLF) =
     p\<lparr>bufferRaw := bufferRaw p @ [l],
       buffer := (buffer p)\<lparr>MidReplyLines := MidReplyLines (buffer p) @ [l]\<rparr>\<rparr>"
  by (simp add: Run_step_def Let_def mid_not_end)

lemma Run_step_end:
  "isReady p \<Longrightarrow> isEndReplyLine l \<Longrightarrow>
   Run_step p (l @ CRLF) =
     p\<lparr>ch := ch p @ [(buffer p)\<lparr>EndReplyLine := l\<rparr>],
       buffer := emptyBuffer, bufferRaw := [], isReady := True, isMultiLine := False\<rparr>"
  by (simp add: Run_step_def Let_def post_def Reset_def)

lemma Run_step_data:
  "isReady p \<Longrightarrow> isDataReplyLine l \<Longrightarrow>
   Run_step p (l @ CRLF) =
     p\<lparr>bufferRaw := bufferRaw p @ [l], dataReplyLine := [l], isReady := False,
       isMultiLine := True\<rparr>"
  by (simp add: Run_step_def Let_def data_not_end data_not_mid)

lemma Run_step_body:
  "\<not> isReady p \<Longrightarrow> isMultiLine p \<Longrightarrow> l \<noteq> ''.'' \<Longrightarrow>
   Run_step p (l @ CRLF) =
     p\<lparr>bufferRaw := bufferRaw p @ [l], dataReplyLine := dataReplyLine p @ [l]\<rparr>"
  by (simp add: Run_step_def Let_def isEndOfData_iff)

lemma Run_step_dot:
  "\<not> isReady p \<Longrightarrow> isMultiLine p \<Longrightarrow>
   Run_step p (''.'' @ CRLF) =
     p\<lparr>bufferRaw := bufferRaw p @ [''.''],
       buffer := (buffer p)\<lparr>DataReplyLines := DataReplyLines (buffer p) @ [dataReplyLine p]\<rparr>,
       isReady := True, isMultiLine := False\<rparr>"
  using Run_step_def [of p "''.'' @ CRLF"] HasSuffix_CRLF [of "''.''"] TrimSuffix_CRLF [of "''.''"]
  by (simp add: Let_def isEndOfData_iff)

lemma Run_mids:
  "isReady p \<Longrightarrow> \<forall>l\<in>set mids. isMidReplyLine l \<and> LF \<notin> set l \<Longrightarrow>
   Run p (wire mids @ rest) =
     Run (p\<lparr>bufferRaw := bufferRaw p @ mids,
            buffer := (buffer p)\<lparr>MidReplyLines := MidReplyLines (buffer p) @ mids\<rparr>\<rparr>) rest"
proof (induction mids arbitrary: p)
  case Nil
  then show ?case by simp
next
  case (Cons l mids)
  have "Run p (wire (l # mids) @ rest) = Run (Run_step p (l @ CRLF)) (wire mids @ rest)"
    using Cons.prems Run_line [of l p "wire mids @ rest"] by simp
  also have "\<dots> = Run (p\<lparr>bufferRaw := bufferRaw p @ [l],
       buffer := (buffer p)\<lparr>MidReplyLines := MidReplyLines (buffer p) @ [l]\<rparr>\<rparr>) (wire mids @ rest)"
    using Cons.prems by (simp add: Run_step_mid)
  also have "\<dots> = Run (p\<lparr>bufferRaw := bufferRaw p @ l # mids,
            buffer := (buffer p)\<lparr>MidReplyLines := MidReplyLines (buffer p) @ l # mids\<rparr>\<rparr>) rest"
    using Cons.prems by (subst Cons.IH) simp_all
  finally show ?case .
qed

lemma Run_body:
  "\<not> isReady p \<Longrightarrow> isMultiLine p \<Longrightarrow> \<forall>l\<in>set body. l \<noteq> ''.'' \<and> LF \<notin> set l \<Longrightarrow>
   Run p (wire body @ rest) =
     Run (p\<lparr>bufferRaw := bufferRaw p @ body, dataReplyLine := dataReplyLine p @ body\<rparr>) rest"
proof (induction body arbitrary: p)
  case Nil
  then show ?case by simp
next
  case (Cons l body)
  have "Run p (wire (l # body) @ rest) = Run (Run_step p (l @ CRLF)) (wire body @ rest)"
    using Cons.prems Run_line [of l p "wire body @ rest"] by simp
  also have "\<dots> = Run (p\<lparr>bufferRaw := bufferRaw p @ [l],
       dataReplyLine := dataReplyLine p @ [l]\<rparr>) (wire body @ rest)"
    using Cons.prems by (simp add: Run_step_body)
  also have "\<dots> = Run (p\<lparr>bufferRaw := bufferRaw p @ l # body,
            dataReplyLine := dataReplyLine p @ l # body\<rparr>) rest"
    using Cons.prems by (subst Cons.IH) simp_all
  finally show ?case .
qed

lemma strict_prefix_line:
  assumes "strict_prefix s (l @ CRLF)" "LF \<notin> set l"
  shows "LF \<notin> set s"
proof -
  have "l @ CRLF = (l @ [CR]) @ [LF]" by simp
  with assms(1) have "prefix s (l @ [CR])"
    by (metis prefix_snoc strict_prefix_def)
  then have "set s \<subseteq> set (l @ [CR])" by (rule set_mono_prefix)
  with assms(2) show ?thesis by auto
qed

lemma strict_prefix_appendD:
  "strict_prefix s (a @ b) \<Longrightarrow> strict_prefix s a \<or> (\<exists>t. s = a @ t \<and> strict_prefix t b)"
  by (auto simp: strict_prefix_def prefix_append)

lemma Run_prefix_silent:
  "isReady p \<Longrightarrow> \<forall>l\<in>set mids. isMidReplyLine l \<and> LF \<notin> set l \<Longrightarrow> LF \<notin> set e \<Longrightarrow>
   strict_prefix s (wire (mids @ [e])) \<Longrightarrow> ch (Run p s) = ch p"
proof (induction mids arbitrary: p s)
  case Nil
  then have "LF \<notin> set s" using strict_prefix_line [of s e] by simp
  then show ?case by (simp add: Run_no_LF)
next
  case (Cons l mids)
  have "strict_prefix s ((l @ CRLF) @ wire (mids @ [e]))" using Cons.prems(4) by simp
  then consider (a) "strict_prefix s (l @ CRLF)"
    | (b) t where "s = (l @ CRLF) @ t" "strict_prefix t (wire (mids @ [e]))"
    using strict_prefix_appendD by blast
  then show ?case
  proof cases
    case a
    then have "LF \<notin> set s" using strict_prefix_line [of s l] Cons.prems(2) by simp
    then show ?thesis by (simp add: Run_no_LF)
  next
    case b
    let ?p = "p\<lparr>bufferRaw := bufferRaw p @ [l],
       buffer := (buffer p)\<lparr>MidReplyLines := MidReplyLines (buffer p) @ [l]\<rparr>\<rparr>"
    have "Run p s = Run (Run_step p (l @ CRLF)) t"
      using b(1) Cons.prems(2) Run_line [of l p t] by simp
    also have "\<dots> = Run ?p t" using Cons.prems by (simp add: Run_step_mid)
    finally have "ch (Run p s) = ch (Run ?p t)" by simp
    also have "\<dots> = ch ?p"
      using Cons.prems b(2) by (intro Cons.IH) simp_all
    finally show ?thesis by simp
  qed
qed

lemma Run_message:
  assumes "isReady p" "\<forall>l\<in>set mids. isMidReplyLine l \<and> LF \<notin> set l"
    "isEndReplyLine e" "LF \<notin> set e"
  shows "Run p (wire (mids @ [e]) @ rest) =
     Run (p\<lparr>ch := ch p @ [(buffer p)\<lparr>MidReplyLines := MidReplyLines (buffer p) @ mids,
                                        EndReplyLine := e\<rparr>],
            buffer := emptyBuffer, bufferRaw := [], isReady := True, isMultiLine := False\<rparr>) rest"
proof -
  let ?p = "p\<lparr>bufferRaw := bufferRaw p @ mids,
            buffer := (buffer p)\<lparr>MidReplyLines := MidReplyLines (buffer p) @ mids\<rparr>\<rparr>"
  have "Run p (wire (mids @ [e]) @ rest) = Run p (wire mids @ (e @ CRLF @ rest))"
    by (simp add: wire_append)
  also have "\<dots> = Run ?p (e @ CRLF @ rest)" using assms(1,2) by (rule Run_mids)
  also have "\<dots> = Run (Run_step ?p (e @ CRLF)) rest" using assms(4) by (rule Run_line)
  also have "Run_step ?p (e @ CRLF) = p\<lparr>ch := ch p @ [(buffer p)\<lparr>MidReplyLines := MidReplyLines (buffer p) @ mids,
                                        EndReplyLine := e\<rparr>],
            buffer := emptyBuffer, bufferRaw := [], isReady := True, isMultiLine := False\<rparr>"
    using assms(1,3) by (simp add: Run_step_end)
  finally show ?thesis .
qed

lemma Run_data_block:
  assumes "isReady p" "isDataReplyLine d" "LF \<notin> set d"
    "\<forall>l\<in>set body. l \<noteq> ''.'' \<and> LF \<notin> set l"
  shows "Run p (wire ([d] @ body @ [''.'']) @ rest) =
     Run (p\<lparr>bufferRaw := bufferRaw p @ [d] @ body @ [''.''],
            dataReplyLine := [d] @ body,
            buffer := (buffer p)\<lparr>DataReplyLines := DataReplyLines (buffer p) @ [[d] @ body]\<rparr>,
            isReady := True, isMultiLine := False\<rparr>) rest"
proof -
  let ?p1 = "p\<lparr>bufferRaw := bufferRaw p @ [d], dataReplyLine := [d], isReady := False,
       isMultiLine := True\<rparr>"
  let ?p2 = "?p1\<lparr>bufferRaw := bufferRaw ?p1 @ body, dataReplyLine := dataReplyLine ?p1 @ body\<rparr>"
  have "Run p (wire ([d] @ body @ [''.'']) @ rest) = Run p (d @ CRLF @ (wire body @ (''.'' @ CRLF @ rest)))"
    by (simp add: wire_append)
  also have "\<dots> = Run (Run_step p (d @ CRLF)) (wire body @ (''.'' @ CRLF @ rest))"
    using assms(3) by (rule Run_line)
  also have "\<dots> = Run ?p1 (wire body @ (''.'' @ CRLF @ rest))"
    using assms(1,2) by (simp add: Run_step_data)
  also have "\<dots> = Run ?p2 (''.'' @ CRLF @ rest)"
    using assms(4) by (intro Run_body) simp_all
  also have "\<dots> = Run (Run_step ?p2 (''.'' @ CRLF)) rest"
    by (rule Run_line) simp
  also have "Run_step ?p2 (''.'' @ CRLF) = p\<lparr>bufferRaw := bufferRaw p @ [d] @ body @ [''.''],
            dataReplyLine := [d] @ body,
            buffer := (buffer p)\<lparr>DataReplyLines := DataReplyLines (buffer p) @ [[d] @ body]\<rparr>,
            isReady := True, isMultiLine := False\<rparr>"
    by (subst Run_step_dot) simp_all
  finally show ?thesis .
qed

lemma NewParser_simps [simp]:
  "isReady NewParser" "ch NewParser = []" "buffer NewParser = emptyBuffer"
  "\<not> isMultiLine NewParser" "bufferRaw NewParser = []"
  by (simp_all add: NewParser_def Reset_def)


lemmas classify_defs = isEndReplyLine_def isMidReplyLine_def isDataReplyLine_def
  isReplyLine_def Atoi_def isDigit_def digitsValue_def


lemma short_not_reply: "length ln < 5 \<Longrightarrow> \<not> isReplyLine ln"
  by (simp add: isReplyLine_def)

lemma Run_step_unclassified:
  assumes "isReady p" "\<not> isEndReplyLine ln" "\<not> isMidReplyLine ln" "\<not> isDataReplyLine ln"
  shows "Run_step p (ln @ CRLF) = Reset (p\<lparr>bufferRaw := bufferRaw p @ [ln]\<rparr>)"
  using assms by (simp add: Run_step_def Let_def)


subsection \<open>Mid-reply lines followed by an end-reply line\<close>

text \<open>
  Claim C7. A fresh parser reads zero or more mid-reply lines and then one end-reply
  line, each sent with its CR LF. It posts exactly one buffer: the mid-reply lines in
  the order they came, no data block, and the end-reply line. Nothing is posted before
  the end-reply line has been read in full: on every proper prefix of the bytes the
  channel stays empty.
\<close>

theorem Run_mid_lines_then_end_reply:
  assumes "\<forall>l\<in>set mids. isMidReplyLine l \<and> LF \<notin> set l"
    and "isEndReplyLine e" and "LF \<notin> set e"
  shows "ch (Run NewParser (wire (mids @ [e]))) =
           [\<lparr>MidReplyLines = mids, DataReplyLines = [], EndReplyLine = e\<rparr>]
         \<and> (\<forall>s. strict_prefix s (wire (mids @ [e])) \<longrightarrow> ch (Run NewParser s) = [])"
proof
  have "Run NewParser (wire (mids @ [e]) @ []) =
     Run (NewParser\<lparr>ch := ch NewParser @ [(buffer NewParser)\<lparr>MidReplyLines := MidReplyLines (buffer NewParser) @ mids,
                                        EndReplyLine := e\<rparr>],
            buffer := emptyBuffer, bufferRaw := [], isReady := True, isMultiLine := False\<rparr>) []"
    using assms by (intro Run_message) simp_all
  then show "ch (Run NewParser (wire (mids @ [e]))) =
           [\<lparr>MidReplyLines = mids, DataReplyLines = [], EndReplyLine = e\<rparr>]"
    by (simp add: Run_no_LF emptyBuffer_def)
next
  show "\<forall>s. strict_prefix s (wire (mids @ [e])) \<longrightarrow> ch (Run NewParser s) = []"
    using assms Run_prefix_silent [of NewParser mids e] by simp
qed


theorem Run_mid_lines_then_end_reply_witness:
  "isMidReplyLine ''250-version=1.0'' \<and> LF \<notin> set ''250-version=1.0''
   \<and> isEndReplyLine ''250 OK'' \<and> LF \<notin> set ''250 OK''
   \<and> ch (Run NewParser (wire ([''250-version=1.0''] @ [''250 OK'']))) =
       [\<lparr>MidReplyLines = [''250-version=1.0''], DataReplyLines = [],
         EndReplyLine = ''250 OK''\<rparr>]
   \<and> ch (Run NewParser (''250-version=1.0'' @ CRLF @ ''250 OK'' @ [CR])) = []"
proof -
  have h1: "\<forall>l\<in>set [''250-version=1.0'']. isMidReplyLine l \<and> LF \<notin> set l"
    by (simp add: classify_defs)
  have h2: "isEndReplyLine ''250 OK''" by (simp add: classify_defs)
  have h3: "LF \<notin> set ''250 OK''" by simp
  have sp: "strict_prefix (''250-version=1.0'' @ CRLF @ ''250 OK'' @ [CR])
              (wire ([''250-version=1.0''] @ [''250 OK'']))"
    by (simp add: wire_def strict_prefix_def)
  have h0: "isMidReplyLine ''250-version=1.0'' \<and> LF \<notin> set ''250-version=1.0''"
    using h1 by simp
  from Run_mid_lines_then_end_reply [OF h1 h2 h3] sp h0 h2 h3 show ?thesis by blast
qed


subsection \<open>A data block\<close>

text \<open>
  Claim C6. A fresh parser reads a data-reply line, then body lines none of which is the
  single character \<open>.\<close>, then the line \<open>.\<close>, then an end-reply line. It posts exactly
  one buffer with exactly one data block: the opening line followed by the body lines in
  the order they came. The terminator is not in the block.
\<close>

theorem Run_data_block_body:
  assumes "isDataReplyLine d" and "LF \<notin> set d"
    and "\<forall>l\<in>set body. l \<noteq> ''.'' \<and> LF \<notin> set l"
    and "isEndReplyLine e" and "LF \<notin> set e"
  shows "ch (Run NewParser (wire ([d] @ body @ [''.''] @ [e]))) =
           [\<lparr>MidReplyLines = [], DataReplyLines = [d # body], EndReplyLine = e\<rparr>]"
proof -
  let ?p = "NewParser\<lparr>bufferRaw := bufferRaw NewParser @ [d] @ body @ [''.''],
            dataReplyLine := [d] @ body,
            buffer := (buffer NewParser)\<lparr>DataReplyLines := DataReplyLines (buffer NewParser) @ [[d] @ body]\<rparr>,
            isReady := True, isMultiLine := False\<rparr>"
  have "wire ([d] @ body @ [''.''] @ [e]) = wire ([d] @ body @ [''.'']) @ (wire ([] @ [e]) @ [])"
    by (simp add: wire_append)
  then have "Run NewParser (wire ([d] @ body @ [''.''] @ [e])) =
      Run NewParser (wire ([d] @ body @ [''.'']) @ (wire ([] @ [e]) @ []))" by simp
  also have "\<dots> = Run ?p (wire ([] @ [e]) @ [])"
    using assms by (intro Run_data_block) simp_all
  also have "\<dots> = Run (?p\<lparr>ch := ch ?p @ [(buffer ?p)\<lparr>MidReplyLines := MidReplyLines (buffer ?p) @ [],
                                        EndReplyLine := e\<rparr>],
            buffer := emptyBuffer, bufferRaw := [], isReady := True, isMultiLine := False\<rparr>) []"
    using assms by (intro Run_message) simp_all
  finally show ?thesis by (simp add: Run_no_LF emptyBuffer_def)
qed

theorem Run_data_block_body_witness:
  "isDataReplyLine ''250+info/names='' \<and> LF \<notin> set ''250+info/names=''
   \<and> ''foo Description'' \<noteq> ''.'' \<and> LF \<notin> set ''foo Description''
   \<and> ''bar Description'' \<noteq> ''.'' \<and> LF \<notin> set ''bar Description''
   \<and> isEndReplyLine ''250 OK'' \<and> LF \<notin> set ''250 OK''
   \<and> ch (Run NewParser (wire ([''250+info/names=''] @ [''foo Description'', ''bar Description'']
                                 @ [''.''] @ [''250 OK'']))) =
       [\<lparr>MidReplyLines = [],
         DataReplyLines = [[''250+info/names='', ''foo Description'', ''bar Description'']],
         EndReplyLine = ''250 OK''\<rparr>]"
proof -
  have h1: "isDataReplyLine ''250+info/names=''" by (simp add: classify_defs)
  have h2: "LF \<notin> set ''250+info/names=''" by simp
  have h3: "\<forall>l\<in>set [''foo Description'', ''bar Description'']. l \<noteq> ''.'' \<and> LF \<notin> set l"
    by simp
  have h4: "isEndReplyLine ''250 OK''" by (simp add: classify_defs)
  have h5: "LF \<notin> set ''250 OK''" by simp
  have h0: "''foo Description'' \<noteq> ''.'' \<and> LF \<notin> set ''foo Description''
   \<and> ''bar Description'' \<noteq> ''.'' \<and> LF \<notin> set ''bar Description''"
    by simp
  from Run_data_block_body [OF h1 h2 h3 h4 h5] h0 h1 h2 h4 h5 show ?thesis by blast
qed


subsection \<open>Lines shorter than five characters\<close>

text \<open>
  Claim C10. A line is classified as an end-reply, mid-reply or data-reply line only if
  it has at least five characters. A line of exactly four characters, made of a status
  code that parses and one of the three separators, is none of the three; read by a
  parser that is ready, it resets the parser: the buffer in progress is emptied and
  nothing is posted.
\<close>

theorem short_line_resets_buffer:
  "(isEndReplyLine ln \<or> isMidReplyLine ln \<or> isDataReplyLine ln \<longrightarrow> 5 \<le> length ln)
   \<and> (length ln = 4 \<and> Atoi (take 3 ln) \<noteq> None
        \<and> (ln ! 3 = CHR '' '' \<or> ln ! 3 = CHR ''-'' \<or> ln ! 3 = CHR ''+'') \<and> isReady p \<longrightarrow>
        \<not> isEndReplyLine ln \<and> \<not> isMidReplyLine ln \<and> \<not> isDataReplyLine ln
        \<and> Run_step p (ln @ CRLF) = Reset (p\<lparr>bufferRaw := bufferRaw p @ [ln]\<rparr>)
        \<and> buffer (Run_step p (ln @ CRLF)) = emptyBuffer
        \<and> isReady (Run_step p (ln @ CRLF))
        \<and> ch (Run_step p (ln @ CRLF)) = ch p)"
proof (intro conjI impI)
  assume "isEndReplyLine ln \<or> isMidReplyLine ln \<or> isDataReplyLine ln"
  then have "isReplyLine ln"
    by (auto simp: isEndReplyLine_def isMidReplyLine_def isDataReplyLine_def split: if_splits)
  then show "5 \<le> length ln" by (simp add: isReplyLine_def split: if_splits)
next
  assume a: "length ln = 4 \<and> Atoi (take 3 ln) \<noteq> None
        \<and> (ln ! 3 = CHR '' '' \<or> ln ! 3 = CHR ''-'' \<or> ln ! 3 = CHR ''+'') \<and> isReady p"
  then have nr: "\<not> isReplyLine ln" by (simp add: short_not_reply)
  from nr show e: "\<not> isEndReplyLine ln" by (simp add: isEndReplyLine_def)
  from nr show m: "\<not> isMidReplyLine ln" by (simp add: isMidReplyLine_def)
  from nr show d: "\<not> isDataReplyLine ln" by (simp add: isDataReplyLine_def)
  from a e m d show r: "Run_step p (ln @ CRLF) = Reset (p\<lparr>bufferRaw := bufferRaw p @ [ln]\<rparr>)"
    by (simp add: Run_step_unclassified)
  from r show "buffer (Run_step p (ln @ CRLF)) = emptyBuffer" by (simp add: Reset_def)
  from r show "isReady (Run_step p (ln @ CRLF))" by (simp add: Reset_def)
  from r show "ch (Run_step p (ln @ CRLF)) = ch p" by (simp add: Reset_def)
qed



theorem short_line_resets_buffer_witness:
  "isMidReplyLine ''250-a=b''
   \<and> MidReplyLines (buffer (Run_step NewParser (''250-a=b'' @ CRLF))) = [''250-a=b'']
   \<and> (length ''250 '' = 4 \<and> Atoi (take 3 ''250 '') \<noteq> None
        \<and> (''250 '' ! 3 = CHR '' '' \<or> ''250 '' ! 3 = CHR ''-'' \<or> ''250 '' ! 3 = CHR ''+'')
        \<and> isReady (Run_step NewParser (''250-a=b'' @ CRLF)))
   \<and> \<not> isEndReplyLine ''250 ''
   \<and> buffer (Run_step (Run_step NewParser (''250-a=b'' @ CRLF)) (''250 '' @ CRLF)) = emptyBuffer
   \<and> ch (Run_step (Run_step NewParser (''250-a=b'' @ CRLF)) (''250 '' @ CRLF))
       = ch (Run_step NewParser (''250-a=b'' @ CRLF))"
proof -
  have m: "isMidReplyLine ''250-a=b''" by (simp add: classify_defs)
  have s: "Run_step NewParser (''250-a=b'' @ CRLF) =
           NewParser\<lparr>bufferRaw := [''250-a=b''],
                     buffer := emptyBuffer\<lparr>MidReplyLines := [''250-a=b'']\<rparr>\<rparr>"
    using m Run_step_mid [of NewParser "''250-a=b''"] by (simp add: emptyBuffer_def)
  have b: "MidReplyLines (buffer (Run_step NewParser (''250-a=b'' @ CRLF))) = [''250-a=b'']"
    by (simp only: s) simp
  have r: "isReady (Run_step NewParser (''250-a=b'' @ CRLF))"
    by (simp only: s) simp
  have h: "length ''250 '' = 4 \<and> Atoi (take 3 ''250 '') \<noteq> None
        \<and> (''250 '' ! 3 = CHR '' '' \<or> ''250 '' ! 3 = CHR ''-'' \<or> ''250 '' ! 3 = CHR ''+'')
        \<and> isReady (Run_step NewParser (''250-a=b'' @ CRLF))"
    using r by (simp add: Atoi_def isDigit_def digitsValue_def)
  from short_line_resets_buffer [of "''250 ''" "Run_step NewParser (''250-a=b'' @ CRLF)"] h m b
  show ?thesis by blast
qed

subsection \<open>A line whose status code does not parse\<close>

text \<open>
  Claim C2 says that a line whose first three characters do not parse as an integer is
  dropped and leaves the buffer in progress as it was. A parser that is ready does
  something else with such a line: the default branch of the switch resets it, and the
  mid-reply lines gathered so far are lost. The reply \<open>250-a=b\<close>, \<open>XYZ OK\<close>, \<open>250 OK\<close>
  is posted without its mid-reply line.
\<close>

theorem unparsable_status_line_counterexample:
  "Atoi (take 3 ''XYZ OK'') = None
   \<and> MidReplyLines (buffer (Run NewParser (wire [''250-a=b'']))) = [''250-a=b'']
   \<and> MidReplyLines (buffer (Run NewParser (wire [''250-a=b'', ''XYZ OK'']))) = []
   \<and> buffer (Run_step (Run NewParser (wire [''250-a=b''])) (''XYZ OK'' @ CRLF))
       \<noteq> buffer (Run NewParser (wire [''250-a=b'']))
   \<and> ch (Run NewParser (wire [''250-a=b'', ''XYZ OK'', ''250 OK''])) =
       [\<lparr>MidReplyLines = [], DataReplyLines = [], EndReplyLine = ''250 OK''\<rparr>]"
  by code_simp


text \<open>
  Claim C2, as amended. Let the first three characters of a line not parse as an
  integer. A parser that is ready is reset by the line: the buffer in progress is
  emptied, the parser stays ready, nothing is posted. A parser inside a data block
  appends the line to the block, unless the line is the terminator \<open>.\<close>. The loop goes
  on in both cases: after the reset, mid-reply lines and an end-reply line that follow
  are posted as one buffer, which holds those lines only.
\<close>

theorem unparsable_status_line:
  assumes "Atoi (take 3 ln) = None"
  shows "(isReady p \<longrightarrow> Run_step p (ln @ CRLF) = Reset (p\<lparr>bufferRaw := bufferRaw p @ [ln]\<rparr>))
     \<and> (\<not> isReady p \<and> isMultiLine p \<and> ln \<noteq> ''.'' \<longrightarrow>
          Run_step p (ln @ CRLF) =
            p\<lparr>bufferRaw := bufferRaw p @ [ln], dataReplyLine := dataReplyLine p @ [ln]\<rparr>)
     \<and> (isReady p \<and> LF \<notin> set ln \<and> (\<forall>l\<in>set mids. isMidReplyLine l \<and> LF \<notin> set l)
          \<and> isEndReplyLine e \<and> LF \<notin> set e \<longrightarrow>
          ch (Run p (wire ([ln] @ mids @ [e]))) =
            ch p @ [\<lparr>MidReplyLines = mids, DataReplyLines = [], EndReplyLine = e\<rparr>])"
proof (intro conjI impI)
  have nr: "\<not> isReplyLine ln" using assms by (simp add: isReplyLine_def)
  then have cl: "\<not> isEndReplyLine ln" "\<not> isMidReplyLine ln" "\<not> isDataReplyLine ln"
    by (simp_all add: isEndReplyLine_def isMidReplyLine_def isDataReplyLine_def)
  {
    assume "isReady p"
    then show r: "Run_step p (ln @ CRLF) = Reset (p\<lparr>bufferRaw := bufferRaw p @ [ln]\<rparr>)"
      using cl by (rule Run_step_unclassified)
  }
  {
    assume "\<not> isReady p \<and> isMultiLine p \<and> ln \<noteq> ''.''"
    then show "Run_step p (ln @ CRLF) =
            p\<lparr>bufferRaw := bufferRaw p @ [ln], dataReplyLine := dataReplyLine p @ [ln]\<rparr>"
      by (simp add: Run_step_body)
  }
  {
    assume a: "isReady p \<and> LF \<notin> set ln \<and> (\<forall>l\<in>set mids. isMidReplyLine l \<and> LF \<notin> set l)
          \<and> isEndReplyLine e \<and> LF \<notin> set e"
    let ?q = "Reset (p\<lparr>bufferRaw := bufferRaw p @ [ln]\<rparr>)"
    have q: "isReady ?q" "ch ?q = ch p" "buffer ?q = emptyBuffer" by (simp_all add: Reset_def)
    have "Run p (wire ([ln] @ mids @ [e])) = Run p (ln @ CRLF @ (wire (mids @ [e]) @ []))"
      by (simp add: wire_append)
    also have "\<dots> = Run (Run_step p (ln @ CRLF)) (wire (mids @ [e]) @ [])"
      using a by (intro Run_line) simp
    also have "\<dots> = Run ?q (wire (mids @ [e]) @ [])"
      using a cl by (simp add: Run_step_unclassified)
    also have "\<dots> = Run (?q\<lparr>ch := ch ?q @ [(buffer ?q)\<lparr>MidReplyLines := MidReplyLines (buffer ?q) @ mids,
                                        EndReplyLine := e\<rparr>],
            buffer := emptyBuffer, bufferRaw := [], isReady := True, isMultiLine := False\<rparr>) []"
      using a q(1) by (intro Run_message) simp_all
    finally show "ch (Run p (wire ([ln] @ mids @ [e]))) =
            ch p @ [\<lparr>MidReplyLines = mids, DataReplyLines = [], EndReplyLine = e\<rparr>]"
      using q by (simp add: Run_no_LF emptyBuffer_def)
  }
qed


theorem unparsable_status_line_witness:
  "Atoi (take 3 ''XYZ OK'') = None
   \<and> isReady (Run NewParser (wire [''250-a=b'']))
   \<and> buffer (Run_step (Run NewParser (wire [''250-a=b''])) (''XYZ OK'' @ CRLF)) = emptyBuffer
   \<and> ch (Run NewParser (wire ([''XYZ OK''] @ [''250-c=d''] @ [''250 OK'']))) = 
       [\<lparr>MidReplyLines = [''250-c=d''], DataReplyLines = [], EndReplyLine = ''250 OK''\<rparr>]"
proof -
  have a: "Atoi (take 3 ''XYZ OK'') = None" by (simp add: Atoi_def isDigit_def)
  have r: "isReady (Run NewParser (wire [''250-a=b'']))" by code_simp
  have h: "isReady NewParser \<and> LF \<notin> set ''XYZ OK''
      \<and> (\<forall>l\<in>set [''250-c=d'']. isMidReplyLine l \<and> LF \<notin> set l)
      \<and> isEndReplyLine ''250 OK'' \<and> LF \<notin> set ''250 OK''"
    by (simp add: classify_defs)
  have b: "buffer (Reset (Run NewParser (wire [''250-a=b''])\<lparr>bufferRaw := bufferRaw (Run NewParser (wire [''250-a=b''])) @ [''XYZ OK'']\<rparr>)) = emptyBuffer"
    by (simp add: Reset_def)
  from unparsable_status_line [OF a, of "Run NewParser (wire [''250-a=b''])"] r b
  have 1: "buffer (Run_step (Run NewParser (wire [''250-a=b''])) (''XYZ OK'' @ CRLF)) = emptyBuffer"
    by simp
  from unparsable_status_line [OF a, of NewParser "[''250-c=d'']" "''250 OK''"] h
  have 2: "ch (Run NewParser (wire ([''XYZ OK''] @ [''250-c=d''] @ [''250 OK'']))) = 
       [\<lparr>MidReplyLines = [''250-c=d''], DataReplyLines = [], EndReplyLine = ''250 OK''\<rparr>]"
    by simp
  from a r 1 2 show ?thesis by blast
qed


section \<open>Properties of responses\<close>

text \<open>
  Claim C5. Whatever status the end-reply line of a response carries, \<open>IsSuccess\<close> is
  false exactly when the status lies between 300 and 599. When the status text does not
  parse as an integer the status is the sentinel \<open>-1\<close>, and the response counts as a
  success.
\<close>

theorem IsSuccess_iff_not_300_599:
  "(Status r = s \<longrightarrow> (IsSuccess r = False) = (300 \<le> s \<and> s \<le> 599))
   \<and> (Atoi (status_parts (EndReplyLine (Buffer r)) ! 0) = None \<longrightarrow> Status r = - 1 \<and> IsSuccess r)"
  by (auto simp: IsSuccess_def Status_def EndReplyLine_Status_def Let_def)


theorem IsSuccess_iff_not_300_599_witness:
  "Status \<lparr>Request = NewRequest ''AUTHENTICATE'',
            Buffer = \<lparr>MidReplyLines = [], DataReplyLines = [],
                      EndReplyLine = ''515 Bad authentication''\<rparr>\<rparr> = 515
   \<and> IsSuccess \<lparr>Request = NewRequest ''AUTHENTICATE'',
                 Buffer = \<lparr>MidReplyLines = [], DataReplyLines = [],
                           EndReplyLine = ''515 Bad authentication''\<rparr>\<rparr> = False
   \<and> Atoi (status_parts (EndReplyLine (Buffer
          \<lparr>Request = NewRequest ''AUTHENTICATE'', Buffer = zeroBuffer\<rparr>)) ! 0) = None
   \<and> Status \<lparr>Request = NewRequest ''AUTHENTICATE'', Buffer = zeroBuffer\<rparr> = - 1
   \<and> IsSuccess \<lparr>Request = NewRequest ''AUTHENTICATE'', Buffer = zeroBuffer\<rparr>"
proof -
  let ?r = "\<lparr>Request = NewRequest ''AUTHENTICATE'',
            Buffer = \<lparr>MidReplyLines = [], DataReplyLines = [],
                      EndReplyLine = ''515 Bad authentication''\<rparr>\<rparr>"
  let ?z = "\<lparr>Request = NewRequest ''AUTHENTICATE'', Buffer = zeroBuffer\<rparr>"
  have s: "Status ?r = 515"
    by (simp add: Status_def EndReplyLine_Status_def status_parts_def SplitN2_def Atoi_def
        isDigit_def digitsValue_def)
  have n: "Atoi (status_parts (EndReplyLine (Buffer ?z)) ! 0) = None"
    by (simp add: zeroBuffer_def status_parts_def SplitN2_def Atoi_def)
  from IsSuccess_iff_not_300_599 [of ?r 515] s have 1: "IsSuccess ?r = False" by simp
  from IsSuccess_iff_not_300_599 [of ?z 0] n have 2: "Status ?z = - 1 \<and> IsSuccess ?z" by blast
  from s 1 n 2 show ?thesis by blast
qed

section \<open>Properties of line buffers\<close>

lemma Replace_Nil [simp]: "Replace [] old new = []"
  by (simp add: Replace.simps)

lemma Replace_CRLF_hit: "Replace (CR # LF # s) CRLF new = new @ Replace s CRLF new"
  by (subst Replace.simps) simp

lemma Replace_CRLF_miss:
  "\<not> (a = CR \<and> s \<noteq> [] \<and> hd s = LF) \<Longrightarrow> Replace (a # s) CRLF new = a # Replace s CRLF new"
  by (subst Replace.simps) (cases s; auto)

lemma Replace_LF_hit: "Replace (LF # s) [LF] new = new @ Replace s [LF] new"
  by (subst Replace.simps) simp

lemma Replace_LF_miss: "a \<noteq> LF \<Longrightarrow> Replace (a # s) [LF] new = a # Replace s [LF] new"
  by (subst Replace.simps) simp

lemma Replace_round_trip:
  "noBareNewline v \<Longrightarrow> Replace (Replace v CRLF [LF]) [LF] CRLF = v"
proof (induction v rule: noBareNewline.induct)
  case 1
  then show ?case by simp
next
  case (2 a)
  then show ?case by (simp add: Replace_CRLF_miss Replace_LF_miss)
next
  case (3 a b s)
  show ?case
  proof (cases "a = CR \<and> b = LF")
    case True
    with 3 show ?thesis by (simp add: Replace_CRLF_hit Replace_LF_hit)
  next
    case False
    with 3 have "a \<noteq> LF" "noBareNewline (b # s)" by simp_all
    with 3 False show ?thesis by (simp add: Replace_CRLF_miss Replace_LF_miss)
  qed
qed

lemma noBareNewline_LF [simp]: "\<not> noBareNewline (LF # s)"
  by (cases s) simp_all

lemma noBareNewline_append:
  "noBareNewline u \<Longrightarrow> noBareNewline v \<Longrightarrow> noBareNewline (u @ v)"
proof (induction u rule: noBareNewline.induct)
  case 1
  then show ?case by simp
next
  case (2 a)
  then show ?case by (cases v) auto
next
  case (3 a b s)
  then show ?case by (auto split: if_splits)
qed

lemma noBareNewline_concat:
  "\<forall>v\<in>set b. noBareNewline v \<Longrightarrow> noBareNewline (concat b)"
  by (induction b) (simp_all add: noBareNewline_append)

lemma Normalize_foldl:
  "\<forall>v\<in>set b. HasSuffix v CRLF \<and> noBareNewline v \<Longrightarrow>
   foldl (\<lambda>results v0.
              let v1 = Replace v0 CRLF [LF];
                  v2 = Replace v1 [LF] CRLF;
                  v3 = (if \<not> HasSuffix v2 CRLF then v2 @ CRLF else v2)
              in results @ v3) acc b = acc @ concat b"
  by (induction b arbitrary: acc) (simp_all add: Replace_round_trip Let_def)

lemma Normalize_terminated: "crlfTerminated b \<Longrightarrow> Normalize b = concat b"
  using Normalize_foldl [of b "[]"] by (simp add: Normalize_def crlfTerminated_def list_all_iff)

lemma HasSuffix_concat:
  "b \<noteq> [] \<Longrightarrow> \<forall>v\<in>set b. HasSuffix v CRLF \<Longrightarrow> HasSuffix (concat b) CRLF"
proof -
  assume ne: "b \<noteq> []" and a: "\<forall>v\<in>set b. HasSuffix v CRLF"
  from ne obtain b0 v where b: "b = b0 @ [v]" by (metis rev_exhaust)
  with a have "suffix CRLF v" by (simp add: HasSuffix_def)
  then have "suffix CRLF (concat b0 @ v)" by (rule suffix_appendI)
  with b show ?thesis by (simp add: HasSuffix_def)
qed


text \<open>
  Claim C8. For a line buffer whose lines end with CR LF and have no bare newline,
  \<open>Normalize\<close> returns the concatenation of the lines. Normalizing the result again
  gives the same bytes: whenever the result is handed back as a buffer of such lines,
  and in particular when the result of a non-empty buffer is handed back as one line.
\<close>

theorem Normalize_idempotent:
  assumes "crlfTerminated b"
  shows "Normalize b = concat b
     \<and> (\<forall>b'. crlfTerminated b' \<and> concat b' = Normalize b \<longrightarrow> Normalize b' = Normalize b)
     \<and> (b \<noteq> [] \<longrightarrow> Normalize [Normalize b] = Normalize b)"
proof (intro conjI allI impI)
  show n: "Normalize b = concat b" using assms by (rule Normalize_terminated)
  {
    fix b' assume "crlfTerminated b' \<and> concat b' = Normalize b"
    then show "Normalize b' = Normalize b" by (simp add: Normalize_terminated)
  }
  {
    assume ne: "b \<noteq> []"
    from assms have a: "\<forall>v\<in>set b. HasSuffix v CRLF" "\<forall>v\<in>set b. noBareNewline v"
      by (simp_all add: crlfTerminated_def list_all_iff)
    from ne a(1) have "HasSuffix (concat b) CRLF" by (rule HasSuffix_concat)
    moreover from a(2) have "noBareNewline (concat b)" by (rule noBareNewline_concat)
    ultimately have "crlfTerminated [concat b]" by (simp add: crlfTerminated_def)
    then have "Normalize [concat b] = concat [concat b]" by (rule Normalize_terminated)
    then show "Normalize [Normalize b] = Normalize b" using n by simp
  }
qed


theorem Normalize_idempotent_witness:
  "crlfTerminated [''GETINFO version'' @ CRLF, ''QUIT'' @ CRLF]
   \<and> Normalize [''GETINFO version'' @ CRLF, ''QUIT'' @ CRLF]
       = ''GETINFO version'' @ CRLF @ ''QUIT'' @ CRLF
   \<and> Normalize [Normalize [''GETINFO version'' @ CRLF, ''QUIT'' @ CRLF]]
       = Normalize [''GETINFO version'' @ CRLF, ''QUIT'' @ CRLF]"
proof -
  let ?b = "[''GETINFO version'' @ CRLF, ''QUIT'' @ CRLF]"
  have h: "crlfTerminated ?b"
    by (simp add: crlfTerminated_def HasSuffix_def suffix_def)
  have ne: "?b \<noteq> []" by simp
  have c: "concat ?b = ''GETINFO version'' @ CRLF @ ''QUIT'' @ CRLF" by simp
  from Normalize_idempotent [OF h] have n: "Normalize ?b = concat ?b" by blast
  from Normalize_idempotent [OF h] ne have i: "Normalize [Normalize ?b] = Normalize ?b"
    by blast
  from n c have "Normalize ?b = ''GETINFO version'' @ CRLF @ ''QUIT'' @ CRLF"
    by (rule trans)
  with h i show ?thesis by blast
qed

text \<open>
  The empty buffer normalizes to no bytes at all. No bytes, handed back as the single
  empty line, is not a CR LF terminated line, and normalizes to CR LF.
\<close>

lemma Normalize_empty_line: "Normalize [] = [] \<and> Normalize [Normalize []] = CRLF"
  by (simp add: Normalize_def HasSuffix_def Let_def)

section \<open>Properties of the controller\<close>

subsection \<open>What requests and authenticators leave untouched\<close>

lemma Request_keeps:
  assumes "Controller_Request c env q = Some (c', r)"
  shows "connection c' = connection c \<and> isConnected c' = isConnected c
     \<and> in_chan c' = in_chan c \<and> parser c' = parser c
     \<and> isAuthenticated c' = isAuthenticated c \<and> authenticator c' = authenticator c"
  using assms
  by (auto simp: Controller_Request_def SendMessage_def split: option.splits prod.splits)

lemma Open_keeps:
  assumes "Open_Authenticate c env pi = Some (c', r)"
  shows "connection c' = connection c \<and> isConnected c' = isConnected c
     \<and> in_chan c' = in_chan c \<and> parser c' = parser c \<and> authenticator c' = authenticator c
     \<and> (r \<noteq> None \<and> \<not> isAuthenticated c \<longrightarrow> \<not> isAuthenticated c')"
  using assms
  by (auto simp: Open_Authenticate_def Let_def IsAuthenticated_def
      split: option.splits prod.splits sum.splits if_splits dest!: Request_keeps)

lemma Cookie_keeps:
  assumes "Cookie_Authenticate c env pi = Some (c', r)"
  shows "connection c' = connection c \<and> isConnected c' = isConnected c
     \<and> in_chan c' = in_chan c \<and> parser c' = parser c \<and> authenticator c' = authenticator c
     \<and> (r \<noteq> None \<and> \<not> isAuthenticated c \<longrightarrow> \<not> isAuthenticated c')"
  using assms
  by (auto simp: Cookie_Authenticate_def Let_def IsAuthenticated_def
      split: option.splits prod.splits sum.splits if_splits dest!: Request_keeps)

lemma Password_keeps:
  assumes "Password_Authenticate c env pi = Some (c', r)"
  shows "connection c' = connection c \<and> isConnected c' = isConnected c
     \<and> in_chan c' = in_chan c \<and> parser c' = parser c \<and> authenticator c' = authenticator c
     \<and> (r \<noteq> None \<and> \<not> isAuthenticated c \<longrightarrow> \<not> isAuthenticated c')"
  using assms
  by (auto simp: Password_Authenticate_def Let_def IsAuthenticated_def
      split: option.splits prod.splits sum.splits if_splits dest!: Request_keeps)

lemma Authenticate_keeps:
  assumes "Authenticate a c env pi = Some (c', r)"
  shows "connection c' = connection c \<and> isConnected c' = isConnected c
     \<and> in_chan c' = in_chan c \<and> parser c' = parser c \<and> authenticator c' = authenticator c
     \<and> (r \<noteq> None \<and> \<not> isAuthenticated c \<longrightarrow> \<not> isAuthenticated c')"
proof (cases a)
  case OpenAuthenticator
  with assms show ?thesis using Open_keeps [of c env pi c' r] by simp
next
  case CookieAuthenticator
  with assms show ?thesis using Cookie_keeps [of c env pi c' r] by simp
next
  case PasswordAuthenticator
  with assms show ?thesis using Password_keeps [of c env pi c' r] by simp
next
  case SafeCookieAuthenticator
  with assms show ?thesis by (auto simp: SafeCookie_Authenticate_def)
qed

subsection \<open>Consistency\<close>

lemma consistent_NewController: "consistent (NewController nw hp)"
  by (simp add: consistent_def NewController_def)

lemma consistent_Close: "consistent c \<Longrightarrow> Close c = Some c' \<Longrightarrow> consistent c'"
  by (auto simp: consistent_def Close_def split: option.splits if_splits)

lemma consistent_Connect:
  assumes "consistent c" "Connect c env = Some (c', r)"
  shows "consistent c'"
  using assms unfolding Connect_def ProtocolInfo_def Let_def IsConnected_def consistent_def
  by (auto split: option.splits sum.splits prod.splits if_splits
      dest!: Request_keeps Authenticate_keeps)

lemma Close_returns: "consistent c \<Longrightarrow> Close c \<noteq> None"
  by (auto simp: consistent_def Close_def split: option.splits)

subsection \<open>Closing\<close>

text \<open>
  Claim C9. \<open>Close\<close> on a controller without a connection returns at once and changes
  nothing. So a second \<open>Close\<close> right after a first one does nothing: the first call
  closes the connection and the channel and clears the connected and the authenticated
  flag, the second finds no connection. On a consistent controller \<open>Close\<close> does not
  panic.
\<close>

theorem Close_idempotent:
  "(connection c = None \<longrightarrow> Close c = Some c)
   \<and> (\<forall>c'. Close c = Some c' \<longrightarrow> Close c' = Some c')
   \<and> (consistent c \<longrightarrow> Close c \<noteq> None)
   \<and> (\<forall>conn. connection c = Some conn \<and> in_chan c = ChanOpen \<longrightarrow>
         Close c = Some (c\<lparr>connection := None, isConnected := False, isAuthenticated := False,
                           in_chan := ChanClosed,
                           effects := effects c @ [ConnClosed conn, ChanClosedEv]\<rparr>))"
proof (intro conjI allI impI)
  show "connection c = None \<Longrightarrow> Close c = Some c" by (simp add: Close_def)
  show "Close c = Some c' \<Longrightarrow> Close c' = Some c'" for c'
    by (auto simp: Close_def split: option.splits if_splits)
  show "consistent c \<Longrightarrow> Close c \<noteq> None" by (rule Close_returns)
  show "connection c = Some conn \<and> in_chan c = ChanOpen \<Longrightarrow>
         Close c = Some (c\<lparr>connection := None, isConnected := False, isAuthenticated := False,
                           in_chan := ChanClosed,
                           effects := effects c @ [ConnClosed conn, ChanClosedEv]\<rparr>)" for conn
    by (simp add: Close_def)
qed

theorem Close_idempotent_witness:
  "connection (NewController ''tcp'' ''127.0.0.1:9051'') = None
   \<and> Close (NewController ''tcp'' ''127.0.0.1:9051'') = Some (NewController ''tcp'' ''127.0.0.1:9051'')
   \<and> consistent connected_controller
   \<and> Close connected_controller =
       Some (connected_controller\<lparr>connection := None, isConnected := False,
               isAuthenticated := False, in_chan := ChanClosed,
               effects := effects connected_controller @ [ConnClosed 1, ChanClosedEv]\<rparr>)
   \<and> Close (connected_controller\<lparr>connection := None, isConnected := False,
               isAuthenticated := False, in_chan := ChanClosed,
               effects := effects connected_controller @ [ConnClosed 1, ChanClosedEv]\<rparr>) =
       Some (connected_controller\<lparr>connection := None, isConnected := False,
               isAuthenticated := False, in_chan := ChanClosed,
               effects := effects connected_controller @ [ConnClosed 1, ChanClosedEv]\<rparr>)"
proof -
  let ?n = "NewController ''tcp'' ''127.0.0.1:9051''"
  let ?d = "connected_controller\<lparr>connection := None, isConnected := False,
               isAuthenticated := False, in_chan := ChanClosed,
               effects := effects connected_controller @ [ConnClosed 1, ChanClosedEv]\<rparr>"
  have n: "connection ?n = None" by (simp add: NewController_def)
  have k: "consistent connected_controller"
    by (simp add: consistent_def connected_controller_def NewController_def)
  have o: "connection connected_controller = Some 1 \<and> in_chan connected_controller = ChanOpen"
    by (simp add: connected_controller_def)
  from Close_idempotent [of ?n] n have 1: "Close ?n = Some ?n" by blast
  from Close_idempotent [of connected_controller] o have 2: "Close connected_controller = Some ?d" by blast
  from Close_idempotent [of connected_controller] 2 have 3: "Close ?d = Some ?d" by blast
  from n 1 k 2 3 show ?thesis by blast
qed

subsection \<open>A failed connect\<close>





subsection \<open>Choosing the authenticator\<close>

lemma select_inner_eq:
  "select_inner cur i methods = (if MethodName i \<in> set methods then Some i else cur)"
  by (induction methods) auto

lemma select_outer_eq:
  "select_outer cur prefs methods =
     (case rev (filter (\<lambda>i. MethodName i \<in> set methods) prefs) of
        [] \<Rightarrow> cur
      | i # _ \<Rightarrow> Some i)"
  by (induction prefs arbitrary: cur) (auto simp: select_inner_eq split: list.splits)

text \<open>
  Claim C1 says that the first authenticator of the preference list whose method is
  advertised is chosen. The \<open>break\<close> of \<open>Connect\<close> leaves the inner loop only, the
  outer loop runs on, and a later match overwrites an earlier one: the loops leave in
  \<open>c.authenticator\<close> the last authenticator of the preference list whose method is
  advertised, and the value the field had before when no method is. For the methods
  \<open>HASHEDPASSWORD\<close> and \<open>NULL\<close> this is the open authenticator, not the password one.
\<close>

theorem select_outer_last_advertised:
  "select_outer cur prefs methods =
     (case rev (filter (\<lambda>i. MethodName i \<in> set methods) prefs) of
        [] \<Rightarrow> cur
      | i # _ \<Rightarrow> Some i)
   \<and> select_outer None authPrefs [''HASHEDPASSWORD'', ''NULL''] = Some OpenAuthenticator"
  by (simp add: select_outer_eq authPrefs_def)

theorem select_outer_last_advertised_witness:
  "select_outer None authPrefs [''HASHEDPASSWORD'', ''NULL''] = Some OpenAuthenticator
   \<and> map_option (authenticator \<circ> fst)
        (Connect (NewController ''tcp'' ''127.0.0.1:9051'') (peer ''HASHEDPASSWORD,NULL'' ''250 OK''))
      = Some (Some OpenAuthenticator)"
proof -
  have "map_option (authenticator \<circ> fst)
        (Connect (NewController ''tcp'' ''127.0.0.1:9051'') (peer ''HASHEDPASSWORD,NULL'' ''250 OK''))
      = Some (Some OpenAuthenticator)"
    by code_simp
  with select_outer_last_advertised [of None authPrefs "[''HASHEDPASSWORD'', ''NULL'']"] show ?thesis by blast
qed

subsection \<open>A reply that is not a success\<close>

lemma Open_Authenticate_nonsuccess:
  assumes "Controller_Request c env (NewRequest ''AUTHENTICATE'') = Some (c1, Inr response)"
    and "\<not> IsSuccess response"
  shows "Open_Authenticate c env protoinfo =
           Some (c1\<lparr>isAuthenticated := False\<rparr>, Some (Errorf ''Authentication failed!''))"
  using assms by (simp add: Open_Authenticate_def Let_def IsAuthenticated_def)

text \<open>
  Claim C4 says that a reply which is not a success makes \<open>Authenticate\<close> return an
  error. The password and the cookie authenticator test the reply together with the
  error of the request and return that error, which is nil here: the call returns no
  error and leaves the authenticated flag as it was. The open authenticator returns an
  error in the same situation.
\<close>

theorem Authenticate_nonsuccess_nil_error:
  "(Controller_Request c env
       (NewRequest (''AUTHENTICATE '' @ [CHR 0x22] @ Password c @ [CHR 0x22]))
      = Some (c1, Inr response) \<and> \<not> IsSuccess response \<longrightarrow>
    Password_Authenticate c env protoinfo = Some (c1, None)
    \<and> isAuthenticated c1 = isAuthenticated c)
   \<and> (AuthCookieFile env protoinfo = Some path \<and> readFile env path = Inr cookie
       \<and> Controller_Request (c\<lparr>effects := effects c @ [FileRead path]\<rparr>) env
            (NewRequest (''AUTHENTICATE '' @ hex cookie)) = Some (c1, Inr response)
       \<and> \<not> IsSuccess response \<longrightarrow>
       Cookie_Authenticate c env protoinfo = Some (c1, None)
       \<and> isAuthenticated c1 = isAuthenticated c)"
  by (auto simp: Password_Authenticate_def Cookie_Authenticate_def Let_def dest!: Request_keeps)

theorem Authenticate_nonsuccess_nil_error_witness:
  "\<not> IsSuccess \<lparr>Request = NewRequest (''AUTHENTICATE '' @ [CHR 0x22] @ [] @ [CHR 0x22]),
                 Buffer = \<lparr>MidReplyLines = [], DataReplyLines = [],
                           EndReplyLine = bad_password_reply\<rparr>\<rparr>
   \<and> map_option snd
        (Password_Authenticate connected_controller (peer ''HASHEDPASSWORD'' bad_password_reply)
           \<lparr>Request = NewRequest ''PROTOCOLINFO'', Buffer = zeroBuffer\<rparr>) = Some None
   \<and> map_option (IsAuthenticated \<circ> fst)
        (Password_Authenticate connected_controller (peer ''HASHEDPASSWORD'' bad_password_reply)
           \<lparr>Request = NewRequest ''PROTOCOLINFO'', Buffer = zeroBuffer\<rparr>) = Some False
   \<and> map_option snd
        (Connect (NewController ''tcp'' ''127.0.0.1:9051'')
           (peer ''HASHEDPASSWORD'' bad_password_reply)) = Some None
   \<and> map_option (IsAuthenticated \<circ> fst)
        (Connect (NewController ''tcp'' ''127.0.0.1:9051'')
           (peer ''HASHEDPASSWORD'' bad_password_reply)) = Some False"
proof -
  let ?env = "peer ''HASHEDPASSWORD'' bad_password_reply"
  let ?req = "NewRequest (''AUTHENTICATE '' @ [CHR 0x22] @ Password connected_controller @ [CHR 0x22])"
  let ?resp = "\<lparr>Request = ?req,
                 Buffer = \<lparr>MidReplyLines = [], DataReplyLines = [],
                           EndReplyLine = bad_password_reply\<rparr>\<rparr>"
  let ?c1 = "connected_controller\<lparr>effects := effects connected_controller
               @ [Written 1 (Normalize (Serialize ?req))]\<rparr>"
  let ?pi = "\<lparr>Request = NewRequest ''PROTOCOLINFO'', Buffer = zeroBuffer\<rparr>"
  have p: "Password connected_controller = []"
    by (simp add: connected_controller_def NewController_def)
  have q: "Controller_Request connected_controller ?env ?req = Some (?c1, Inr ?resp)"
    by code_simp
  have f: "\<not> IsSuccess ?resp" by code_simp
  from Authenticate_nonsuccess_nil_error [of connected_controller ?env ?c1 ?resp ?pi] q f
  have a: "Password_Authenticate connected_controller ?env ?pi = Some (?c1, None)
           \<and> isAuthenticated ?c1 = isAuthenticated connected_controller"
    by blast
  have u: "\<not> isAuthenticated connected_controller"
    by (simp add: connected_controller_def NewController_def)
  from a u have 1: "map_option snd (Password_Authenticate connected_controller ?env ?pi) = Some None"
    and 2: "map_option (IsAuthenticated \<circ> fst)
        (Password_Authenticate connected_controller ?env ?pi) = Some False"
    by (simp_all add: IsAuthenticated_def)
  have 3: "map_option snd (Connect (NewController ''tcp'' ''127.0.0.1:9051'') ?env) = Some None"
    by code_simp
  have 4: "map_option (IsAuthenticated \<circ> fst)
        (Connect (NewController ''tcp'' ''127.0.0.1:9051'') ?env) = Some False"
    by code_simp
  from f p have 0: "\<not> IsSuccess \<lparr>Request = NewRequest (''AUTHENTICATE '' @ [CHR 0x22] @ [] @ [CHR 0x22]),
                 Buffer = \<lparr>MidReplyLines = [], DataReplyLines = [],
                           EndReplyLine = bad_password_reply\<rparr>\<rparr>" by simp
  from 0 1 2 3 4 show ?thesis by blast
qed

end
